theory Spec2Isabelle
  imports Main
begin

section \<open>Values of the runtime\<close>

text \<open>
  A JavaScript \<open>number\<close> holding a process id: an integer, or \<open>NaN\<close> (what
  \<open>parseInt\<close> returns on a string without digits). Integers beyond 2^53 lose
  precision in the runtime; process ids never reach that range and the model keeps
  them exact.
\<close>

datatype number = Num int | NaN

text \<open>
  Truthiness of a value of type \<open>number | undefined\<close>, as tested by
  \<open>if (proc.pm_id)\<close>: \<open>undefined\<close>, \<open>0\<close> and \<open>NaN\<close> are falsy.
\<close>

definition truthy :: "number option \<Rightarrow> bool" where
  "truthy v = (case v of None \<Rightarrow> False | Some NaN \<Rightarrow> False | Some (Num n) \<Rightarrow> n \<noteq> 0)"

text \<open>
  A thrown or rejected value: \<open>Error m\<close> is \<open>new Error(m)\<close>, \<open>Text s\<close> is the
  plain string \<open>s\<close> (the timer rejects with the string \<open>'timeout'\<close>, not an Error).
\<close>

datatype rejection = Error string | Text string

subsection \<open>parseInt with radix 10\<close>

definition isWhiteSpace :: "char \<Rightarrow> bool" where
  "isWhiteSpace c = (c \<in> set [CHR '' '', CHR 0x09, CHR 0x0A, CHR 0x0B, CHR 0x0C, CHR 0x0D])"

definition isDigit :: "char \<Rightarrow> bool" where
  "isDigit c = (48 \<le> (of_char c :: nat) \<and> (of_char c :: nat) \<le> 57)"

definition digitsValue :: "string \<Rightarrow> nat" where
  "digitsValue z = foldl (\<lambda>a c. 10 * a + ((of_char c :: nat) - 48)) 0 z"

text \<open>
  \<open>parseInt(s, 10)\<close>: leading white space is skipped (the ASCII white space
  characters are modelled), one sign is read, then the longest run of decimal digits;
  with no digit the result is \<open>NaN\<close>. Anything after the digits is ignored.
\<close>

definition parseInt10 :: "string \<Rightarrow> number" where
  "parseInt10 s =
     (let t = dropWhile isWhiteSpace s;
          neg = (case t of [] \<Rightarrow> False | c # _ \<Rightarrow> c = CHR ''-'');
          u = (case t of [] \<Rightarrow> [] | c # r \<Rightarrow> if c = CHR ''+'' \<or> c = CHR ''-'' then r else t);
          z = takeWhile isDigit u
      in if z = [] then NaN
         else Num (if neg then - int (digitsValue z) else int (digitsValue z)))"

section \<open>Data model\<close>

text \<open>
  The packet exchanged between processes. \<open>isReply\<close> and \<open>replyTo\<close> are optional
  fields (\<open>None\<close> is \<open>undefined\<close>); the payload type is left open. The field
  \<open>id\<close> of the source is \<open>id_pkt\<close> here.
\<close>

record 'a ProcessPacket =
  topic :: string
  id_pkt :: number
  data :: 'a
  isReply :: "bool option"
  replyTo :: "number option"
  originalProcId :: number

text \<open>The part of pm2's process description that the code reads.\<close>

record Pm2Env =
  status :: "string option"

record ProcessDescription =
  name :: "string option"
  pm_id :: "number option"
  pm2_env :: "Pm2Env option"

text \<open>The part of \<open>process.env\<close> that the code reads; \<open>None\<close> is an unset variable.\<close>

record ProcessEnv =
  exec_mode :: "string option"
  pm_id_env :: "string option"
  name_env :: "string option"

text \<open>
  The message channel, as a log of the calls of \<open>pm2.sendDataToProcessId\<close>: the
  target process id, the packet, and whether pm2 reported an error to the callback.
\<close>

type_synonym 'a channel = "(number \<times> 'a ProcessPacket \<times> bool) list"

text \<open>
  The state of a promise returned by \<open>awaitAllProcMessagesReplies\<close>.
\<close>

datatype 'a settled = Pending | Resolved "'a ProcessPacket list" | Rejected rejection

text \<open>
  The closure of one invocation of \<open>awaitAllProcMessagesReplies\<close> that got past the
  broadcast: its topic, \<open>procLength\<close>, the \<open>responses\<close> array, the promise, whether
  the timer \<open>timeoutHandle\<close> is still armed, and whether \<open>handler\<close> is among the
  listeners of the process's \<open>message\<close> event.
\<close>

record 'a AwaitCall =
  call_topic :: string
  timeoutInMilliseconds :: nat
  procLength :: nat
  responses :: "'a ProcessPacket list"
  promise :: "'a settled"
  timeoutHandle :: bool
  listening :: bool

text \<open>
  One process: the invocations in the order their handlers were registered (which is
  the order in which the event emitter calls them), the channel log, and the
  rejections of promises that nobody awaits.
\<close>

record 'a Process =
  calls :: "'a AwaitCall list"
  sent :: "'a channel"
  unhandled :: "rejection list"

section \<open>The operations\<close>

definition isClusterMode :: "ProcessEnv \<Rightarrow> bool" where
  "isClusterMode env = (exec_mode env = Some ''cluster_mode'')"

definition getCurrentProcId :: "ProcessEnv \<Rightarrow> rejection + number" where
  "getCurrentProcId env =
     (case pm_id_env env of
        None \<Rightarrow> Inl (Error ''PM2 process id not found'')
      | Some s \<Rightarrow> Inr (parseInt10 s))"

text \<open>The filter predicate of \<open>getProcList\<close>.\<close>

definition sameNameOnline :: "ProcessEnv \<Rightarrow> ProcessDescription \<Rightarrow> bool" where
  "sameNameOnline env o' =
     (name o' = name_env env \<and>
      (case pm2_env o' of None \<Rightarrow> False | Some e \<Rightarrow> status e = Some ''online''))"

text \<open>
  \<open>getProcList\<close>; the argument \<open>listed\<close> is what \<open>pm2.list\<close> passes to its
  callback: an error, or the list of all processes.
\<close>

definition getProcList ::
  "ProcessEnv \<Rightarrow> rejection + ProcessDescription list \<Rightarrow> rejection + ProcessDescription list" where
  "getProcList env listed =
     (case listed of
        Inl err \<Rightarrow> Inl err
      | Inr list \<Rightarrow> Inr (filter (sameNameOnline env) list))"

text \<open>
  \<open>pm2.sendDataToProcessId(proc_id, packet, (err) => true)\<close>: the callback ignores
  the error; \<open>fails\<close> says for which targets pm2 reports one.
\<close>

definition sendDataToProcessId ::
  "(number \<Rightarrow> bool) \<Rightarrow> number \<Rightarrow> 'a ProcessPacket \<Rightarrow> 'a channel \<Rightarrow> 'a channel" where
  "sendDataToProcessId fails proc_id packet ch = ch @ [(proc_id, packet, fails proc_id)]"

text \<open>The body of the \<open>forEach\<close> in \<open>broadcastToAll\<close>.\<close>

definition sendIfPmId ::
  "(number \<Rightarrow> bool) \<Rightarrow> 'a ProcessPacket \<Rightarrow> 'a channel \<Rightarrow> ProcessDescription \<Rightarrow> 'a channel" where
  "sendIfPmId fails packet ch proc =
     (if truthy (pm_id proc)
      then (case pm_id proc of Some n \<Rightarrow> sendDataToProcessId fails n packet ch | None \<Rightarrow> ch)
      else ch)"

definition broadcastToAll ::
  "ProcessEnv \<Rightarrow> (number \<Rightarrow> bool) \<Rightarrow> rejection + ProcessDescription list \<Rightarrow>
   'a ProcessPacket \<Rightarrow> 'a channel \<Rightarrow> (rejection + nat) \<times> 'a channel" where
  "broadcastToAll env fails listed packet ch =
     (case getProcList env listed of
        Inl err \<Rightarrow> (Inl err, ch)
      | Inr procList \<Rightarrow> (Inr (length procList), foldl (sendIfPmId fails packet) ch procList))"

text \<open>
  \<open>awaitAllProcMessagesReplies\<close> up to the registration of \<open>handler\<close>. The executor
  is an async function: when \<open>getCurrentProcId\<close> throws or the broadcast rejects, it
  is the executor's own promise that is rejected, which nobody awaits; the promise
  handed to the caller is then never settled, no timer is armed and no handler is
  registered. That outcome is \<open>Inl\<close>; otherwise the result is the index of the new
  invocation. \<open>emptyData\<close> is the payload \<open>{}\<close> of the request. The code after
  \<open>await broadcastToAll\<close> runs in the same turn of the event loop as the sends, so
  the timer is armed and \<open>handler\<close> registered before any reply can be delivered;
  the timer's delay is kept in the closure, its expiry is an event of the loop.
\<close>

definition awaitAllProcMessagesReplies ::
  "ProcessEnv \<Rightarrow> (number \<Rightarrow> bool) \<Rightarrow> rejection + ProcessDescription list \<Rightarrow> 'a \<Rightarrow>
   string \<Rightarrow> nat \<Rightarrow> 'a Process \<Rightarrow> (rejection + nat) \<times> 'a Process" where
  "awaitAllProcMessagesReplies env fails listed emptyData topic' timeout st =
     (case getCurrentProcId env of
        Inl e \<Rightarrow> (Inl e, st\<lparr>unhandled := unhandled st @ [e]\<rparr>)
      | Inr currentProcId \<Rightarrow>
          (case broadcastToAll env fails listed
                  \<lparr>topic = topic', id_pkt = currentProcId, data = emptyData,
                   isReply = Some False, replyTo = Some currentProcId,
                   originalProcId = currentProcId\<rparr> (sent st) of
             (Inl e, ch) \<Rightarrow> (Inl e, st\<lparr>sent := ch, unhandled := unhandled st @ [e]\<rparr>)
           | (Inr n, ch) \<Rightarrow>
               (Inr (length (calls st)),
                st\<lparr>calls := calls st @
                      [\<lparr>call_topic = topic', timeoutInMilliseconds = timeout, procLength = n,
                        responses = [], promise = Pending, timeoutHandle = True,
                        listening = True\<rparr>],
                   sent := ch\<rparr>)))"

text \<open>Settling a promise: only the first \<open>resolve\<close> or \<open>reject\<close> has an effect.\<close>

definition resolve :: "'a ProcessPacket list \<Rightarrow> 'a settled \<Rightarrow> 'a settled" where
  "resolve v p = (case p of Pending \<Rightarrow> Resolved v | _ \<Rightarrow> p)"

definition reject :: "rejection \<Rightarrow> 'a settled \<Rightarrow> 'a settled" where
  "reject r p = (case p of Pending \<Rightarrow> Rejected r | _ \<Rightarrow> p)"

text \<open>The closure \<open>handler\<close> of an invocation, run on one inbound packet.\<close>

definition handler :: "'a ProcessPacket \<Rightarrow> 'a AwaitCall \<Rightarrow> 'a AwaitCall" where
  "handler response c =
     (if isReply response \<noteq> Some True \<or> topic response \<noteq> call_topic c then c
      else let rs = responses c @ [response] in
           if length rs = procLength c
           then c\<lparr>responses := rs, listening := False, timeoutHandle := False,
                  promise := resolve rs (promise c)\<rparr>
           else c\<lparr>responses := rs\<rparr>)"

text \<open>The timer callback \<open>() => reject('timeout')\<close>; it runs only while armed.\<close>

definition timeoutCallback :: "'a AwaitCall \<Rightarrow> 'a AwaitCall" where
  "timeoutCallback c =
     (if timeoutHandle c
      then c\<lparr>timeoutHandle := False, promise := reject (Text ''timeout'') (promise c)\<rparr>
      else c)"

text \<open>
  \<open>sendProcReply\<close>: the identity is resolved and the packet built before the
  \<open>replyTo\<close> check; either throw leaves the channel as it was.
\<close>

definition sendProcReply ::
  "ProcessEnv \<Rightarrow> (number \<Rightarrow> bool) \<Rightarrow> 'a ProcessPacket \<Rightarrow> 'a \<Rightarrow> 'a channel \<Rightarrow>
   (rejection + unit) \<times> 'a channel" where
  "sendProcReply env fails originalPacket data' ch =
     (case getCurrentProcId env of
        Inl e \<Rightarrow> (Inl e, ch)
      | Inr currentProcId \<Rightarrow>
          (let returnPacket = originalPacket\<lparr>data := data', isReply := Some True,
                                id_pkt := currentProcId, originalProcId := currentProcId\<rparr>
           in case replyTo originalPacket of
                None \<Rightarrow> (Inl (Error ''ReplyTo is undefined''), ch)
              | Some r \<Rightarrow> (Inr (), sendDataToProcessId fails r returnPacket ch)))"

text \<open>
  \<open>handleProcessMessage\<close>, the responder registered at load time in cluster mode.
  \<open>metricsJSON\<close> is what \<open>client.register.getMetricsAsJSON()\<close> yields; the reply
  is sent once that promise is fulfilled, which the model places in the step that
  delivers the request. Inbound messages are packets, so the test \<open>packet &&\<close> holds.
  A throw of \<open>sendProcReply\<close> rejects the promise of this async function, which nobody
  awaits.
\<close>

definition handleProcessMessage ::
  "ProcessEnv \<Rightarrow> (number \<Rightarrow> bool) \<Rightarrow> 'a \<Rightarrow> 'a ProcessPacket \<Rightarrow> 'a Process \<Rightarrow> 'a Process" where
  "handleProcessMessage env fails metricsJSON packet st =
     (if topic packet = ''metrics-get'' \<and> isReply packet \<noteq> Some True
      then (case sendProcReply env fails packet metricsJSON (sent st) of
              (Inl e, ch) \<Rightarrow> st\<lparr>sent := ch, unhandled := unhandled st @ [e]\<rparr>
            | (Inr u, ch) \<Rightarrow> st\<lparr>sent := ch\<rparr>)
      else st)"

subsection \<open>The event loop of one process\<close>

text \<open>
  What the event loop delivers after the handlers are in place: an inbound packet on
  the \<open>message\<close> event, or the expiry of the timer of invocation \<open>k\<close>.
\<close>

datatype 'a event = Message "'a ProcessPacket" | TimeoutFires nat

text \<open>
  Emitting \<open>message\<close>: the responder (registered first, in cluster mode only), then
  the handler of every invocation that is still registered.
\<close>

definition emitMessage ::
  "ProcessEnv \<Rightarrow> (number \<Rightarrow> bool) \<Rightarrow> 'a \<Rightarrow> 'a ProcessPacket \<Rightarrow> 'a Process \<Rightarrow> 'a Process" where
  "emitMessage env fails metricsJSON packet st =
     (let st1 = (if isClusterMode env then handleProcessMessage env fails metricsJSON packet st
                 else st)
      in st1\<lparr>calls := map (\<lambda>c. if listening c then handler packet c else c) (calls st1)\<rparr>)"

definition fireTimeout :: "nat \<Rightarrow> 'a Process \<Rightarrow> 'a Process" where
  "fireTimeout k st =
     (if k < length (calls st)
      then st\<lparr>calls := (calls st)[k := timeoutCallback (calls st ! k)]\<rparr>
      else st)"

fun step ::
  "ProcessEnv \<Rightarrow> (number \<Rightarrow> bool) \<Rightarrow> 'a \<Rightarrow> 'a Process \<Rightarrow> 'a event \<Rightarrow> 'a Process" where
  "step env fails metricsJSON st (Message packet) = emitMessage env fails metricsJSON packet st"
| "step env fails metricsJSON st (TimeoutFires k) = fireTimeout k st"

definition run ::
  "ProcessEnv \<Rightarrow> (number \<Rightarrow> bool) \<Rightarrow> 'a \<Rightarrow> 'a event list \<Rightarrow> 'a Process \<Rightarrow> 'a Process" where
  "run env fails metricsJSON evs st = foldl (step env fails metricsJSON) st evs"

subsection \<open>The aggregate query\<close>

text \<open>
  \<open>getAggregateMetrics\<close> either returns \<open>client.register\<close> at once or awaits an
  invocation of \<open>awaitAllProcMessagesReplies\<close> on the topic \<open>metrics-get\<close>.
\<close>

datatype 'r query = Local 'r | Awaiting "rejection + nat"

definition getAggregateMetrics ::
  "ProcessEnv \<Rightarrow> (number \<Rightarrow> bool) \<Rightarrow> rejection + ProcessDescription list \<Rightarrow> 'a \<Rightarrow> 'r \<Rightarrow>
   nat \<Rightarrow> 'a Process \<Rightarrow> 'r query \<times> 'a Process" where
  "getAggregateMetrics env fails listed emptyData register timeout st =
     (if isClusterMode env
      then (case awaitAllProcMessagesReplies env fails listed emptyData ''metrics-get'' timeout st of
              (k, st') \<Rightarrow> (Awaiting k, st'))
      else (Local register, st))"

text \<open>
  The state of the promise of \<open>getAggregateMetrics\<close>; \<open>aggregate\<close> is
  \<open>client.AggregatorRegistry.aggregate\<close>.
\<close>

datatype 'r outcome = Unsettled | Fulfilled 'r | Failed rejection

definition queryOutcome :: "('a list \<Rightarrow> 'r) \<Rightarrow> 'a Process \<Rightarrow> 'r query \<Rightarrow> 'r outcome" where
  "queryOutcome aggregate st q =
     (case q of
        Local r \<Rightarrow> Fulfilled r
      | Awaiting (Inl e) \<Rightarrow> Unsettled
      | Awaiting (Inr k) \<Rightarrow>
          (if k < length (calls st)
           then (case promise (calls st ! k) of
                   Pending \<Rightarrow> Unsettled
                 | Resolved procMetrics \<Rightarrow> Fulfilled (aggregate (map data procMetrics))
                 | Rejected r \<Rightarrow> Failed r)
           else Unsettled))"

section \<open>Notions used in the statements\<close>

text \<open>
  The packets of a trace that \<open>handler\<close> of a request on topic \<open>tp\<close> accepts:
  those with a truthy \<open>isReply\<close> and the same topic, in arrival order.
\<close>

fun replies :: "string \<Rightarrow> 'a event list \<Rightarrow> 'a ProcessPacket list" where
  "replies tp [] = []"
| "replies tp (Message p # evs) =
     (if isReply p = Some True \<and> topic p = tp then p # replies tp evs else replies tp evs)"
| "replies tp (TimeoutFires j # evs) = replies tp evs"

text \<open>
  The effect of one event on the invocation with index \<open>k\<close>: \<open>step\<close> seen from
  that invocation alone.
\<close>

definition callStep :: "nat \<Rightarrow> 'a AwaitCall \<Rightarrow> 'a event \<Rightarrow> 'a AwaitCall" where
  "callStep k c ev =
     (case ev of
        Message p \<Rightarrow> if listening c then handler p c else c
      | TimeoutFires j \<Rightarrow> if j = k then timeoutCallback c else c)"

text \<open>
  The events that can change an invocation on topic \<open>tp\<close>: every timer expiry and
  the packets its handler accepts.
\<close>

fun concerns :: "string \<Rightarrow> 'a event \<Rightarrow> bool" where
  "concerns tp (Message p) = (isReply p = Some True \<and> topic p = tp)"
| "concerns tp (TimeoutFires j) = True"

text \<open>
  The process ids for which the \<open>forEach\<close> of \<open>broadcastToAll\<close> calls
  \<open>pm2.sendDataToProcessId\<close>, in order.
\<close>

fun sendTargets :: "ProcessDescription list \<Rightarrow> number list" where
  "sendTargets [] = []"
| "sendTargets (proc # procList) =
     (if truthy (pm_id proc)
      then (case pm_id proc of Some n \<Rightarrow> n # sendTargets procList | None \<Rightarrow> sendTargets procList)
      else sendTargets procList)"

text \<open>
  A promise is resolved only by the handler that deregisters itself, with the
  responses it holds at that moment.
\<close>

definition resolvedByHandler :: "'a AwaitCall \<Rightarrow> bool" where
  "resolvedByHandler c =
     (case promise c of Resolved rs \<Rightarrow> \<not> listening c \<and> responses c = rs | _ \<Rightarrow> True)"

section \<open>Scenarios\<close>

text \<open>
  Channels on which no send fails, and on which every send fails.
\<close>

definition noFailure :: "number \<Rightarrow> bool" where
  "noFailure n = False"

definition everyFailure :: "number \<Rightarrow> bool" where
  "everyFailure n = True"

text \<open>
  The environment pm2 gives the cluster worker of the application \<open>app\<close> with the
  given \<open>pm_id\<close>; a process started outside cluster mode; a process in cluster mode
  without a \<open>pm_id\<close>.
\<close>

definition worker :: "string \<Rightarrow> ProcessEnv" where
  "worker pm = \<lparr>exec_mode = Some ''cluster_mode'', pm_id_env = Some pm, name_env = Some ''app''\<rparr>"

definition standalone :: ProcessEnv where
  "standalone = \<lparr>exec_mode = Some ''fork_mode'', pm_id_env = Some ''0'', name_env = Some ''app''\<rparr>"

definition unidentified :: ProcessEnv where
  "unidentified = \<lparr>exec_mode = Some ''cluster_mode'', pm_id_env = None, name_env = Some ''app''\<rparr>"

text \<open>
  The description pm2 lists for the worker of \<open>app\<close> with the given id and status.
\<close>

definition described :: "int \<Rightarrow> string \<Rightarrow> ProcessDescription" where
  "described i s = \<lparr>name = Some ''app'', pm_id = Some (Num i), pm2_env = Some \<lparr>status = Some s\<rparr>\<rparr>"

text \<open>
  A process with no invocation yet and nothing sent.
\<close>

definition idle :: "string Process" where
  "idle = \<lparr>calls = [], sent = [], unhandled = []\<rparr>"

text \<open>
  The request packet that worker \<open>i\<close> broadcasts on \<open>metrics-get\<close>, and the reply
  with payload \<open>d\<close> that worker \<open>i\<close> sends to a request of worker \<open>j\<close>.
\<close>

definition request :: "int \<Rightarrow> string ProcessPacket" where
  "request i = \<lparr>topic = ''metrics-get'', id_pkt = Num i, data = ''{}'', isReply = Some False,
                replyTo = Some (Num i), originalProcId = Num i\<rparr>"

definition answer :: "int \<Rightarrow> string \<Rightarrow> int \<Rightarrow> string ProcessPacket" where
  "answer i d j = \<lparr>topic = ''metrics-get'', id_pkt = Num i, data = d, isReply = Some True,
                   replyTo = Some (Num j), originalProcId = Num i\<rparr>"

text \<open>
  Worker 1 after \<open>awaitAllProcMessagesReplies\<close> when pm2 lists only itself, still
  launching: no process passes the filter.
\<close>

definition lonely :: "string Process" where
  "lonely = snd (awaitAllProcMessagesReplies (worker ''1'') noFailure
                   (Inr [described 1 ''launching'']) ''{}'' ''metrics-get'' 1000 idle)"

text \<open>
  Worker 1 after \<open>awaitAllProcMessagesReplies\<close> with the online siblings 2 and 3; the
  same after the timer of that invocation has fired; and after a second invocation on
  the same topic has then been started.
\<close>

definition awaiting23 :: "string Process" where
  "awaiting23 = snd (awaitAllProcMessagesReplies (worker ''1'') noFailure
                   (Inr [described 2 ''online'', described 3 ''online'']) ''{}'' ''metrics-get'' 1000 idle)"

definition expired :: "string Process" where
  "expired = run (worker ''1'') noFailure ''m'' [TimeoutFires 0] awaiting23"

definition secondAwaiting :: "string Process" where
  "secondAwaiting = snd (awaitAllProcMessagesReplies (worker ''1'') noFailure
     (Inr [described 2 ''online'', described 3 ''online'']) ''{}'' ''metrics-get'' 1000 expired)"

text \<open>
  Worker 1 among the online workers 0, 1 and 2; worker 0 among the online workers 0
  and 1; worker 1 among the online workers 1 and 2.
\<close>

definition skipped0 :: "string Process" where
  "skipped0 = snd (awaitAllProcMessagesReplies (worker ''1'') noFailure
     (Inr [described 0 ''online'', described 1 ''online'', described 2 ''online''])
     ''{}'' ''metrics-get'' 1000 idle)"

definition zeroth :: "string Process" where
  "zeroth = snd (awaitAllProcMessagesReplies (worker ''0'') noFailure
     (Inr [described 0 ''online'', described 1 ''online'']) ''{}'' ''metrics-get'' 1000 idle)"

definition withSelf :: "string Process" where
  "withSelf = snd (awaitAllProcMessagesReplies (worker ''1'') noFailure
     (Inr [described 1 ''online'', described 2 ''online'']) ''{}'' ''metrics-get'' 1000 idle)"

section \<open>Lemmas about the event loop\<close>

lemma calls_handleProcessMessage [simp]:
  "calls (handleProcessMessage env fails m p st) = calls st"
  by (simp add: handleProcessMessage_def split: prod.splits sum.splits)

lemma length_calls_step [simp]:
  "length (calls (step env fails m st ev)) = length (calls st)"
  by (cases ev) (simp_all add: emitMessage_def fireTimeout_def Let_def)

lemma nth_calls_step:
  "k < length (calls st) \<Longrightarrow> calls (step env fails m st ev) ! k = callStep k (calls st ! k) ev"
  by (cases ev) (auto simp: emitMessage_def fireTimeout_def Let_def callStep_def nth_list_update)

lemma length_calls_run [simp]:
  "length (calls (run env fails m evs st)) = length (calls st)"
  unfolding run_def by (induction evs arbitrary: st) simp_all

lemma nth_calls_run:
  "k < length (calls st) \<Longrightarrow>
   calls (run env fails m evs st) ! k = foldl (callStep k) (calls st ! k) evs"
  unfolding run_def
proof (induction evs arbitrary: st)
  case Nil
  show ?case by simp
next
  case (Cons ev evs)
  have "k < length (calls (step env fails m st ev))" using Cons.prems by simp
  from Cons.IH [OF this] show ?case using Cons.prems by (simp add: nth_calls_step)
qed

lemma callStep_fixed [simp]:
  "call_topic (callStep k c ev) = call_topic c"
  "procLength (callStep k c ev) = procLength c"
  by (cases ev; simp add: callStep_def handler_def timeoutCallback_def Let_def)+

lemma foldl_callStep_fixed [simp]:
  "call_topic (foldl (callStep k) c evs) = call_topic c"
  "procLength (foldl (callStep k) c evs) = procLength c"
  by (induction evs arbitrary: c; simp)+

lemma callStep_irrelevant:
  "isReply p \<noteq> Some True \<or> topic p \<noteq> call_topic c \<Longrightarrow> callStep k c (Message p) = c"
  by (auto simp: callStep_def handler_def)

lemma not_listening_callStep:
  "\<not> listening c \<Longrightarrow> \<not> listening (callStep k c ev) \<and> responses (callStep k c ev) = responses c"
  by (cases ev) (simp_all add: callStep_def timeoutCallback_def)

lemma not_listening_foldl:
  "\<not> listening c \<Longrightarrow>
   \<not> listening (foldl (callStep k) c evs) \<and> responses (foldl (callStep k) c evs) = responses c"
proof (induction evs arbitrary: c)
  case Nil
  then show ?case by simp
next
  case (Cons ev evs)
  from not_listening_callStep [OF Cons.prems, of k ev] Cons.IH [of "callStep k c ev"]
  show ?case by simp
qed

lemma collecting_foldl:
  "listening c \<Longrightarrow> length (responses c) < procLength c \<Longrightarrow>
   responses (foldl (callStep k) c evs) =
     responses c @ take (procLength c - length (responses c)) (replies (call_topic c) evs) \<and>
   listening (foldl (callStep k) c evs) =
     (length (responses c) + length (replies (call_topic c) evs) < procLength c)"
proof (induction evs arbitrary: c)
  case Nil
  then show ?case by simp
next
  case (Cons ev evs)
  show ?case
  proof (cases ev)
    case (TimeoutFires j)
    have "listening (callStep k c ev)" "responses (callStep k c ev) = responses c"
      using Cons.prems TimeoutFires by (simp_all add: callStep_def timeoutCallback_def)
    with Cons.IH [of "callStep k c ev"] Cons.prems TimeoutFires show ?thesis by simp
  next
    case (Message p)
    show ?thesis
    proof (cases "isReply p = Some True \<and> topic p = call_topic c")
      case False
      then have "callStep k c ev = c" using Message callStep_irrelevant [of p c k] by blast
      with Cons.IH [of c] Cons.prems Message False show ?thesis by auto
    next
      case True
      show ?thesis
      proof (cases "Suc (length (responses c)) = procLength c")
        case full: True
        have c': "\<not> listening (callStep k c ev)" "responses (callStep k c ev) = responses c @ [p]"
          using Cons.prems Message True full by (simp_all add: callStep_def handler_def Let_def)
        have one: "procLength c - length (responses c) = Suc 0" using full by arith
        from not_listening_foldl [OF c'(1), of k evs] c'(2) Message True full one
        show ?thesis by simp
      next
        case notfull: False
        have c': "listening (callStep k c ev)" "responses (callStep k c ev) = responses c @ [p]"
          using Cons.prems Message True notfull by (simp_all add: callStep_def handler_def Let_def)
        have "length (responses (callStep k c ev)) < procLength (callStep k c ev)"
          using c'(2) notfull Cons.prems by simp
        moreover obtain d where d: "procLength c - length (responses c) = Suc d"
          using Cons.prems(2) by (metis Suc_diff_Suc)
        moreover have "procLength c - Suc (length (responses c)) = d" using d by arith
        ultimately show ?thesis
          using Cons.IH [OF c'(1), of ] c'(2) Message True by simp
      qed
    qed
  qed
qed

lemma overfull_foldl:
  "listening c \<Longrightarrow> procLength c \<le> length (responses c) \<Longrightarrow>
   responses (foldl (callStep k) c evs) = responses c @ replies (call_topic c) evs \<and>
   listening (foldl (callStep k) c evs)"
proof (induction evs arbitrary: c)
  case Nil
  then show ?case by simp
next
  case (Cons ev evs)
  show ?case
  proof (cases ev)
    case (TimeoutFires j)
    have "listening (callStep k c ev)" "responses (callStep k c ev) = responses c"
      using Cons.prems TimeoutFires by (simp_all add: callStep_def timeoutCallback_def)
    with Cons.IH [of "callStep k c ev"] Cons.prems TimeoutFires show ?thesis by simp
  next
    case (Message p)
    show ?thesis
    proof (cases "isReply p = Some True \<and> topic p = call_topic c")
      case False
      then have "callStep k c ev = c" using Message callStep_irrelevant [of p c k] by blast
      with Cons.IH [of c] Cons.prems Message False show ?thesis by auto
    next
      case True
      have c': "listening (callStep k c ev)" "responses (callStep k c ev) = responses c @ [p]"
        using Cons.prems Message True by (simp_all add: callStep_def handler_def Let_def)
      have "procLength (callStep k c ev) \<le> length (responses (callStep k c ev))"
        using c'(2) Cons.prems by simp
      from Cons.IH [OF c'(1) this] c'(2) Message True show ?thesis by simp
    qed
  qed
qed

lemma foldl_callStep_concerns:
  "foldl (callStep k) c evs = foldl (callStep k) c (filter (concerns (call_topic c)) evs)"
proof (induction evs arbitrary: c)
  case Nil
  show ?case by simp
next
  case (Cons ev evs)
  show ?case
  proof (cases "concerns (call_topic c) ev")
    case True
    with Cons.IH [of "callStep k c ev"] show ?thesis by simp
  next
    case False
    then obtain p where ev: "ev = Message p"
      and "isReply p \<noteq> Some True \<or> topic p \<noteq> call_topic c"
      by (cases ev) auto
    then have "callStep k c ev = c" using callStep_irrelevant [of p c k] by simp
    with Cons.IH [of c] False show ?thesis by simp
  qed
qed

lemma awaiting_foldl:
  "listening c \<Longrightarrow> TimeoutFires k \<notin> set evs \<Longrightarrow>
   length (responses c) + length (replies (call_topic c) evs) < procLength c \<Longrightarrow>
   foldl (callStep k) c evs = c\<lparr>responses := responses c @ replies (call_topic c) evs\<rparr>"
proof (induction evs arbitrary: c)
  case Nil
  show ?case by simp
next
  case (Cons ev evs)
  show ?case
  proof (cases ev)
    case (TimeoutFires j)
    then have "callStep k c ev = c" using Cons.prems(2) by (auto simp: callStep_def)
    with Cons.IH [of c] Cons.prems TimeoutFires show ?thesis by simp
  next
    case (Message p)
    show ?thesis
    proof (cases "isReply p = Some True \<and> topic p = call_topic c")
      case False
      then have "callStep k c ev = c" using Message callStep_irrelevant [of p c k] by blast
      with Cons.IH [of c] Cons.prems Message False show ?thesis by auto
    next
      case True
      have c': "callStep k c ev = c\<lparr>responses := responses c @ [p]\<rparr>"
        using Cons.prems Message True by (simp add: callStep_def handler_def Let_def)
      have "foldl (callStep k) (c\<lparr>responses := responses c @ [p]\<rparr>) evs =
            c\<lparr>responses := responses c @ [p]\<rparr>
              \<lparr>responses := responses (c\<lparr>responses := responses c @ [p]\<rparr>) @
                 replies (call_topic (c\<lparr>responses := responses c @ [p]\<rparr>)) evs\<rparr>"
        by (rule Cons.IH) (use Cons.prems Message True in simp_all)
      with c' Message True show ?thesis by simp
    qed
  qed
qed

lemma rejected_callStep:
  "promise c = Rejected r \<Longrightarrow> promise (callStep k c ev) = Rejected r"
  by (cases ev) (simp_all add: callStep_def handler_def timeoutCallback_def Let_def
                   resolve_def reject_def)

lemma rejected_foldl:
  "promise c = Rejected r \<Longrightarrow> promise (foldl (callStep k) c evs) = Rejected r"
  by (induction evs arbitrary: c) (simp_all add: rejected_callStep)

lemma resolvedByHandler_callStep:
  "resolvedByHandler c \<Longrightarrow> resolvedByHandler (callStep k c ev)"
  by (cases ev)
     (auto simp: resolvedByHandler_def callStep_def handler_def timeoutCallback_def Let_def
                 resolve_def reject_def split: settled.splits)

lemma resolvedByHandler_foldl:
  "resolvedByHandler c \<Longrightarrow> resolvedByHandler (foldl (callStep k) c evs)"
  by (induction evs arbitrary: c) (simp_all add: resolvedByHandler_callStep)

lemma foldl_sendIfPmId:
  "foldl (sendIfPmId fails packet) ch procList =
   ch @ map (\<lambda>n. (n, packet, fails n)) (sendTargets procList)"
proof (induction procList arbitrary: ch)
  case Nil
  show ?case by simp
next
  case (Cons proc procList)
  show ?case
    using Cons.IH [of "sendIfPmId fails packet ch proc"]
    by (auto simp: sendIfPmId_def sendDataToProcessId_def truthy_def split: option.splits)
qed

lemma length_sendTargets:
  "length (sendTargets procList) = length (filter (\<lambda>proc. truthy (pm_id proc)) procList)"
  by (induction procList) (auto simp: truthy_def split: option.splits)

lemma sendTargets_fewer:
  "proc \<in> set procList \<Longrightarrow> \<not> truthy (pm_id proc) \<Longrightarrow>
   length (sendTargets procList) < length procList"
  unfolding length_sendTargets
  by (metis length_filter_less)

lemma sendTargets_member:
  "proc \<in> set procList \<Longrightarrow> pm_id proc = Some n \<Longrightarrow> truthy (Some n) \<Longrightarrow>
   n \<in> set (sendTargets procList)"
  by (induction procList) (auto split: option.splits)

lemma awaitAll_started:
  assumes "awaitAllProcMessagesReplies env fails listed e tp t st = (Inr k, st1)"
  shows "\<exists>cur list. getCurrentProcId env = Inr cur \<and> listed = Inr list \<and>
           k = length (calls st) \<and>
           st1 = st\<lparr>calls := calls st @
                      [\<lparr>call_topic = tp, timeoutInMilliseconds = t,
                        procLength = length (filter (sameNameOnline env) list),
                        responses = [], promise = Pending, timeoutHandle = True,
                        listening = True\<rparr>],
                    sent := sent st @ map (\<lambda>n. (n, \<lparr>topic = tp, id_pkt = cur, data = e,
                               isReply = Some False, replyTo = Some cur,
                               originalProcId = cur\<rparr>, fails n))
                             (sendTargets (filter (sameNameOnline env) list))\<rparr>"
  using assms
  by (auto simp: awaitAllProcMessagesReplies_def broadcastToAll_def getProcList_def
                 foldl_sendIfPmId split: sum.splits prod.splits)

lemma started_call:
  assumes "awaitAllProcMessagesReplies env fails listed e tp t st = (Inr k, st1)"
  shows "k < length (calls st1) \<and> call_topic (calls st1 ! k) = tp \<and>
         responses (calls st1 ! k) = [] \<and> promise (calls st1 ! k) = Pending \<and>
         timeoutHandle (calls st1 ! k) \<and> listening (calls st1 ! k) \<and>
         (\<exists>list. listed = Inr list \<and>
            procLength (calls st1 ! k) = length (filter (sameNameOnline env) list))"
  using awaitAll_started [OF assms] by auto

lemma run_append:
  "run env fails m (evs @ evs') st = run env fails m evs' (run env fails m evs st)"
  by (simp add: run_def)

lemma times_out_when_short:
  assumes "listening c" "promise c = Pending" "timeoutHandle c"
    and "TimeoutFires k \<notin> set evs"
    and "length (responses c) + length (replies (call_topic c) evs) < procLength c"
  shows "promise (foldl (callStep k) c (evs @ TimeoutFires k # later)) = Rejected (Text ''timeout'')"
proof -
  have "foldl (callStep k) c evs = c\<lparr>responses := responses c @ replies (call_topic c) evs\<rparr>"
    using assms by (simp add: awaiting_foldl)
  then have "promise (callStep k (foldl (callStep k) c evs) (TimeoutFires k)) =
             Rejected (Text ''timeout'')"
    using assms by (simp add: callStep_def timeoutCallback_def reject_def)
  then show ?thesis by (simp add: rejected_foldl)
qed

lemma never_resolved_while_listening:
  assumes "resolvedByHandler c" "listening (foldl (callStep k) c evs)"
  shows "promise (foldl (callStep k) c evs) \<noteq> Resolved rs"
  using resolvedByHandler_foldl [OF assms(1), of k evs] assms(2)
  by (auto simp: resolvedByHandler_def)

lemma zero_expected_never_resolved:
  assumes "awaitAllProcMessagesReplies env fails listed e tp t st = (Inr k, st1)"
    and "procLength (calls st1 ! k) = 0"
  shows "promise (calls (run env fails m evs st1) ! k) \<noteq> Resolved rs"
proof -
  note s = started_call [OF assms(1)]
  have "listening (foldl (callStep k) (calls st1 ! k) evs)"
    using overfull_foldl [of "calls st1 ! k" k evs] s assms(2) by simp
  moreover have "resolvedByHandler (calls st1 ! k)" using s by (simp add: resolvedByHandler_def)
  ultimately show ?thesis using never_resolved_while_listening s
    by (simp add: nth_calls_run)
qed

lemma surfaced_callStep:
  assumes "p \<in> set (responses c)" and "\<forall>rs. promise c = Resolved rs \<longrightarrow> p \<in> set rs"
  shows "p \<in> set (responses (callStep k c ev)) \<and>
         (\<forall>rs. promise (callStep k c ev) = Resolved rs \<longrightarrow> p \<in> set rs)"
  using assms
  by (cases ev)
     (auto simp: callStep_def handler_def timeoutCallback_def Let_def resolve_def reject_def
           split: settled.splits)

lemma surfaced_foldl:
  assumes "p \<in> set (responses c)" and "\<forall>rs. promise c = Resolved rs \<longrightarrow> p \<in> set rs"
  shows "\<forall>rs. promise (foldl (callStep k) c evs) = Resolved rs \<longrightarrow> p \<in> set rs"
  using assms
proof (induction evs arbitrary: c)
  case Nil
  then show ?case by simp
next
  case (Cons ev evs)
  from surfaced_callStep [OF Cons.prems, of k ev]
  have "p \<in> set (responses (callStep k c ev))"
    and "\<forall>rs. promise (callStep k c ev) = Resolved rs \<longrightarrow> p \<in> set rs"
    by blast+
  from Cons.IH [OF this] show ?case by simp
qed

section \<open>The claims\<close>

text \<open>
  C1, evaluated where the filtered list is empty. The expected count is 0, yet the
  promise is pending after the start: \<open>handler\<close> compares the lengths only after a
  push, so the count 0 is never met (\<open>zero_expected_never_resolved\<close> above: no trace
  resolves it). The only settlement is the rejection with \<open>'timeout'\<close> when the timer
  fires.
\<close>

theorem no_siblings_waits_for_timeout:
  "awaitAllProcMessagesReplies (worker ''1'') noFailure (Inr [described 1 ''launching''])
      ''{}'' ''metrics-get'' 1000 idle = (Inr 0, lonely) \<and>
   procLength (calls lonely ! 0) = 0 \<and>
   promise (calls lonely ! 0) = Pending \<and>
   promise (calls (run (worker ''1'') noFailure ''m'' [TimeoutFires 0] lonely) ! 0) =
     Rejected (Text ''timeout'')"
  by code_simp

text \<open>
  C2, refuted on a trace: worker 1 broadcasts to the siblings 2 and 3, no reply comes and
  the timer fires. The promise is rejected with \<open>'timeout'\<close> while \<open>handler\<close> is still
  registered. Worker 1 then starts a second request on the same topic; the reply of
  worker 2 to the first request arrives, then its reply to the second one, and the
  second request resolves with these two packets.
\<close>

theorem late_reply_counted_by_next_request:
  "promise (calls expired ! 0) = Rejected (Text ''timeout'') \<and>
   listening (calls expired ! 0) \<and>
   map (\<lambda>s. fst (snd s)) (sent awaiting23) = [request 1, request 1] \<and>
   sendProcReply (worker ''2'') noFailure (request 1) ''late'' [] =
     (Inr (), [(Num 1, answer 2 ''late'' 1, False)]) \<and>
   awaitAllProcMessagesReplies (worker ''1'') noFailure
     (Inr [described 2 ''online'', described 3 ''online'']) ''{}'' ''metrics-get'' 1000 expired =
     (Inr 1, secondAwaiting) \<and>
   promise (calls secondAwaiting ! 1) = Pending \<and>
   promise (calls (run (worker ''1'') noFailure ''m''
      [Message (answer 2 ''late'' 1), Message (answer 2 ''new'' 1)] secondAwaiting) ! 1) =
     Resolved [answer 2 ''late'' 1, answer 2 ''new'' 1]"
  by code_simp

text \<open>
  C2 as amended: once an invocation is rejected with \<open>'timeout'\<close>, no later event
  changes its outcome; and a packet with a truthy \<open>isReply\<close> and the topic of an
  outstanding invocation (handler registered, promise pending) is appended to that
  invocation's responses, whichever request it answers (a packet carries no request
  identity), and is in the value of its promise whenever that promise is resolved
  afterwards.
\<close>

theorem timeout_final_but_late_reply_accepted:
  assumes "k < length (calls st)" and "promise (calls st ! k) = Rejected (Text ''timeout'')"
    and "j < length (calls st)" and "listening (calls st ! j)"
    and "promise (calls st ! j) = Pending"
    and "isReply p = Some True" and "topic p = call_topic (calls st ! j)"
  shows "promise (calls (run env fails m evs st) ! k) = Rejected (Text ''timeout'') \<and>
         responses (calls (step env fails m st (Message p)) ! j) = responses (calls st ! j) @ [p] \<and>
         (\<forall>rs. promise (calls (run env fails m (Message p # evs) st) ! j) = Resolved rs \<longrightarrow>
            p \<in> set rs)"
proof -
  let ?c = "calls st ! j"
  have "promise (foldl (callStep k) (calls st ! k) evs) = Rejected (Text ''timeout'')"
    using assms(2) by (rule rejected_foldl)
  then have a: "promise (calls (run env fails m evs st) ! k) = Rejected (Text ''timeout'')"
    using assms(1) by (simp add: nth_calls_run)
  have r: "responses (callStep j ?c (Message p)) = responses ?c @ [p]"
    using assms(4,6,7) by (simp add: callStep_def handler_def Let_def)
  then have b: "responses (calls (step env fails m st (Message p)) ! j) = responses ?c @ [p]"
    unfolding nth_calls_step [OF assms(3)] .
  have in1: "p \<in> set (responses (callStep j ?c (Message p)))" using r by simp
  have in2: "\<forall>rs. promise (callStep j ?c (Message p)) = Resolved rs \<longrightarrow> p \<in> set rs"
    using assms(4,5,6,7) by (simp add: callStep_def handler_def Let_def resolve_def)
  have "\<forall>rs. promise (foldl (callStep j) (callStep j ?c (Message p)) evs) = Resolved rs \<longrightarrow>
          p \<in> set rs"
    using in1 in2 by (rule surfaced_foldl)
  then have c: "\<forall>rs. promise (calls (run env fails m (Message p # evs) st) ! j) = Resolved rs \<longrightarrow>
          p \<in> set rs"
    using assms(3) by (simp add: nth_calls_run)
  show ?thesis using a b c by (intro conjI) assumption+
qed

text \<open>
  The amended C2 on the trace above: the first invocation stays rejected, the second
  one takes the late reply and resolves with it.
\<close>

theorem timeout_final_but_late_reply_accepted_witness:
  "0 < length (calls secondAwaiting) \<and>
   promise (calls secondAwaiting ! 0) = Rejected (Text ''timeout'') \<and>
   1 < length (calls secondAwaiting) \<and> listening (calls secondAwaiting ! 1) \<and>
   promise (calls secondAwaiting ! 1) = Pending \<and>
   isReply (answer 2 ''late'' 1) = Some True \<and>
   topic (answer 2 ''late'' 1) = call_topic (calls secondAwaiting ! 1) \<and>
   promise (calls (run (worker ''1'') noFailure ''m'' [Message (answer 2 ''new'' 1)]
      secondAwaiting) ! 0) = Rejected (Text ''timeout'') \<and>
   responses (calls (step (worker ''1'') noFailure ''m'' secondAwaiting
      (Message (answer 2 ''late'' 1))) ! 1) =
     responses (calls secondAwaiting ! 1) @ [answer 2 ''late'' 1] \<and>
   promise (calls (run (worker ''1'') noFailure ''m''
      (Message (answer 2 ''late'' 1) # [Message (answer 2 ''new'' 1)]) secondAwaiting) ! 1) =
     Resolved [answer 2 ''late'' 1, answer 2 ''new'' 1] \<and>
   answer 2 ''late'' 1 \<in> set [answer 2 ''late'' 1, answer 2 ''new'' 1]"
proof -
  have h1: "0 < length (calls secondAwaiting)" by code_simp
  have h2: "promise (calls secondAwaiting ! 0) = Rejected (Text ''timeout'')" by code_simp
  have h3: "1 < length (calls secondAwaiting)" by code_simp
  have h4: "listening (calls secondAwaiting ! 1)" by code_simp
  have h5: "promise (calls secondAwaiting ! 1) = Pending" by code_simp
  have h6: "isReply (answer 2 ''late'' 1) = Some True" by code_simp
  have h7: "topic (answer 2 ''late'' 1) = call_topic (calls secondAwaiting ! 1)" by code_simp
  have h8: "promise (calls (run (worker ''1'') noFailure ''m''
      (Message (answer 2 ''late'' 1) # [Message (answer 2 ''new'' 1)]) secondAwaiting) ! 1) =
     Resolved [answer 2 ''late'' 1, answer 2 ''new'' 1]" by code_simp
  note t = timeout_final_but_late_reply_accepted [OF h1 h2 h3 h4 h5 h6 h7, of "worker ''1''"
      noFailure "''m''" "[Message (answer 2 ''new'' 1)]"]
  from t have a: "promise (calls (run (worker ''1'') noFailure ''m'' [Message (answer 2 ''new'' 1)]
      secondAwaiting) ! 0) = Rejected (Text ''timeout'')" by blast
  from t have b: "responses (calls (step (worker ''1'') noFailure ''m'' secondAwaiting
      (Message (answer 2 ''late'' 1))) ! 1) =
     responses (calls secondAwaiting ! 1) @ [answer 2 ''late'' 1]" by blast
  from t h8 have c: "answer 2 ''late'' 1 \<in> set [answer 2 ''late'' 1, answer 2 ''new'' 1]"
    by blast
  show ?thesis using h1 h2 h3 h4 h5 h6 h7 a b h8 c by (intro conjI) assumption+
qed

text \<open>
  C3, refuted: worker 2 answers the request of worker 1; the reply's
  \<open>originalProcId\<close> is 2, the request's is 1.
\<close>

theorem reply_names_the_responder_as_origin:
  "sendProcReply (worker ''2'') noFailure (request 1) ''a'' [] =
     (Inr (), [(Num 1, answer 2 ''a'' 1, False)]) \<and>
   originalProcId (request 1) = Num 1 \<and>
   originalProcId (answer 2 ''a'' 1) = Num 2 \<and>
   originalProcId (answer 2 ''a'' 1) \<noteq> originalProcId (request 1)"
  by code_simp

text \<open>
  C3 as amended: the reply that \<open>sendProcReply\<close> sends has the responder's own
  process id as \<open>originalProcId\<close> (and as \<open>id\<close>); the topic and \<open>replyTo\<close> of the
  request are kept, and the reply goes to the request's \<open>replyTo\<close>.
\<close>

theorem reply_origin_is_responder:
  assumes "getCurrentProcId env = Inr cur" and "replyTo originalPacket = Some r"
  shows "sendProcReply env fails originalPacket d ch =
           (Inr (), ch @ [(r, originalPacket\<lparr>data := d, isReply := Some True, id_pkt := cur,
                                             originalProcId := cur\<rparr>, fails r)]) \<and>
         originalProcId (originalPacket\<lparr>data := d, isReply := Some True, id_pkt := cur,
                                        originalProcId := cur\<rparr>) = cur \<and>
         topic (originalPacket\<lparr>data := d, isReply := Some True, id_pkt := cur,
                               originalProcId := cur\<rparr>) = topic originalPacket \<and>
         replyTo (originalPacket\<lparr>data := d, isReply := Some True, id_pkt := cur,
                                 originalProcId := cur\<rparr>) = replyTo originalPacket"
  using assms by (simp add: sendProcReply_def sendDataToProcessId_def)

text \<open>
  The amended C3 for worker 3 answering the request of worker 1, on a channel where
  every send fails.
\<close>

theorem reply_origin_is_responder_witness:
  "getCurrentProcId (worker ''3'') = Inr (Num 3) \<and>
   replyTo (request 1) = Some (Num 1) \<and>
   sendProcReply (worker ''3'') everyFailure (request 1) ''c'' [] =
     (Inr (), [] @ [(Num 1, (request 1)\<lparr>data := ''c'', isReply := Some True, id_pkt := Num 3,
                                         originalProcId := Num 3\<rparr>, everyFailure (Num 1))]) \<and>
   originalProcId ((request 1)\<lparr>data := ''c'', isReply := Some True, id_pkt := Num 3,
                               originalProcId := Num 3\<rparr>) = Num 3"
proof -
  have h1: "getCurrentProcId (worker ''3'') = Inr (Num 3)" by code_simp
  have h2: "replyTo (request 1) = Some (Num 1)" by code_simp
  from reply_origin_is_responder [OF h1 h2, of everyFailure "''c''" "[]"] h1 h2
  show ?thesis by blast
qed

text \<open>
  C4: when fewer accepted replies than \<open>procLength\<close> arrive before the timer of the
  invocation fires, the promise is rejected with the string \<open>'timeout'\<close>, which holds
  none of the collected replies, and stays so whatever arrives later;
  \<open>getAggregateMetrics\<close> fails with the same value.
\<close>

theorem timeout_surfaces_no_partial_result:
  assumes "awaitAllProcMessagesReplies env fails listed e tp t st = (Inr k, st1)"
    and "TimeoutFires k \<notin> set evs"
    and "length (replies tp evs) < procLength (calls st1 ! k)"
  shows "promise (calls (run env fails m (evs @ TimeoutFires k # later) st1) ! k) =
           Rejected (Text ''timeout'') \<and>
         queryOutcome aggregate (run env fails m (evs @ TimeoutFires k # later) st1)
           (Awaiting (Inr k)) = Failed (Text ''timeout'')"
proof -
  note s = started_call [OF assms(1)]
  have "promise (foldl (callStep k) (calls st1 ! k) (evs @ TimeoutFires k # later)) =
        Rejected (Text ''timeout'')"
    using s assms(2,3) by (intro times_out_when_short) simp_all
  then have p: "promise (calls (run env fails m (evs @ TimeoutFires k # later) st1) ! k) =
           Rejected (Text ''timeout'')"
    using s by (simp add: nth_calls_run)
  then show ?thesis using s by (simp add: queryOutcome_def)
qed

text \<open>
  C4 with siblings 2 and 3, where only worker 2 replies before the timer fires and
  worker 3 replies after it.
\<close>

theorem timeout_surfaces_no_partial_result_witness:
  "awaitAllProcMessagesReplies (worker ''1'') noFailure
      (Inr [described 2 ''online'', described 3 ''online'']) ''{}'' ''metrics-get'' 1000 idle =
      (Inr 0, awaiting23) \<and>
   TimeoutFires 0 \<notin> set [Message (answer 2 ''a'' 1)] \<and>
   length (replies ''metrics-get'' [Message (answer 2 ''a'' 1)]) < procLength (calls awaiting23 ! 0) \<and>
   promise (calls (run (worker ''1'') noFailure ''m''
      ([Message (answer 2 ''a'' 1)] @ TimeoutFires 0 # [Message (answer 3 ''c'' 1)]) awaiting23) ! 0) =
      Rejected (Text ''timeout'') \<and>
   queryOutcome concat (run (worker ''1'') noFailure ''m''
      ([Message (answer 2 ''a'' 1)] @ TimeoutFires 0 # [Message (answer 3 ''c'' 1)]) awaiting23)
      (Awaiting (Inr 0)) = Failed (Text ''timeout'')"
proof -
  have h1: "awaitAllProcMessagesReplies (worker ''1'') noFailure
      (Inr [described 2 ''online'', described 3 ''online'']) ''{}'' ''metrics-get'' 1000 idle =
      (Inr 0, awaiting23)" by code_simp
  have h2: "TimeoutFires 0 \<notin> set [Message (answer 2 ''a'' 1)]" by simp
  have h3: "length (replies ''metrics-get'' [Message (answer 2 ''a'' 1)]) <
            procLength (calls awaiting23 ! 0)" by code_simp
  from timeout_surfaces_no_partial_result [OF h1 h2 h3, of "''m''" "[Message (answer 3 ''c'' 1)]" concat]
    h1 h2 h3
  show ?thesis by blast
qed

text \<open>
  C5: \<open>broadcastToAll\<close> returns the length of the filtered list, whatever the channel
  reports for the single sends; with an empty list it returns 0 and leaves the channel
  as it was.
\<close>

theorem broadcast_returns_sibling_count:
  assumes "getProcList env listed = Inr procList"
  shows "fst (broadcastToAll env fails listed packet ch) = Inr (length procList) \<and>
         (procList = [] \<longrightarrow> broadcastToAll env fails listed packet ch = (Inr 0, ch))"
  using assms by (auto simp: broadcastToAll_def)

text \<open>
  C5 with two online siblings on a channel where every send fails, and with no
  online sibling.
\<close>

theorem broadcast_returns_sibling_count_witness:
  "getProcList (worker ''1'')
      (Inr [described 2 ''online'', described 5 ''stopped'', described 3 ''online'']) =
      Inr [described 2 ''online'', described 3 ''online''] \<and>
   fst (broadcastToAll (worker ''1'') everyFailure
      (Inr [described 2 ''online'', described 5 ''stopped'', described 3 ''online''])
      (request 1) []) = Inr (length [described 2 ''online'', described 3 ''online'']) \<and>
   getProcList (worker ''1'') (Inr [described 5 ''stopped'']) = Inr [] \<and>
   broadcastToAll (worker ''1'') noFailure (Inr [described 5 ''stopped'']) (request 1)
      [(Num 9, request 2, False)] = (Inr 0, [(Num 9, request 2, False)])"
proof -
  have h: "getProcList (worker ''1'')
      (Inr [described 2 ''online'', described 5 ''stopped'', described 3 ''online'']) =
      Inr [described 2 ''online'', described 3 ''online'']" by code_simp
  have h': "getProcList (worker ''1'') (Inr [described 5 ''stopped'']) = Inr []" by code_simp
  from broadcast_returns_sibling_count [OF h, of everyFailure "request 1" "[]"]
    broadcast_returns_sibling_count [OF h', of noFailure "request 1" "[(Num 9, request 2, False)]"]
    h h'
  show ?thesis by blast
qed

text \<open>
  C6: for an invocation on topic \<open>tp\<close>, removing from the trace every packet that is
  not a reply on \<open>tp\<close> leaves the invocation's state the same; its responses are the
  accepted packets in arrival order, up to \<open>procLength\<close>; a resolved promise holds
  exactly the first \<open>procLength\<close> of them; and one run of \<open>handler\<close> appends the
  packet if and only if \<open>isReply\<close> is true and the topic is the invocation's.
\<close>

theorem replies_counted_iff_matching:
  assumes "awaitAllProcMessagesReplies env fails listed e tp t st = (Inr k, st1)"
  shows "calls (run env fails m evs st1) ! k =
           calls (run env fails m (filter (concerns tp) evs) st1) ! k \<and>
         responses (calls (run env fails m evs st1) ! k) =
           (if procLength (calls st1 ! k) = 0 then replies tp evs
            else take (procLength (calls st1 ! k)) (replies tp evs)) \<and>
         (\<forall>rs. promise (calls (run env fails m evs st1) ! k) = Resolved rs \<longrightarrow>
           rs = take (procLength (calls st1 ! k)) (replies tp evs)) \<and>
         (\<forall>(p :: 'a ProcessPacket) c. responses (handler p c) =
           (if isReply p = Some True \<and> topic p = call_topic c then responses c @ [p]
            else responses c))"
proof -
  note s = started_call [OF assms]
  let ?c = "calls st1 ! k"
  let ?c' = "foldl (callStep k) ?c evs"
  have run: "calls (run env fails m evs' st1) ! k = foldl (callStep k) ?c evs'" for evs'
    using s by (simp add: nth_calls_run)
  have a: "calls (run env fails m evs st1) ! k =
           calls (run env fails m (filter (concerns tp) evs) st1) ! k"
    using foldl_callStep_concerns [of k ?c evs] s by (simp add: run)
  have b: "responses ?c' =
           (if procLength ?c = 0 then replies tp evs else take (procLength ?c) (replies tp evs))"
  proof (cases "procLength ?c = 0")
    case True
    then show ?thesis using overfull_foldl [of ?c k evs] s by simp
  next
    case False
    then show ?thesis using collecting_foldl [of ?c k evs] s by simp
  qed
  have c: "rs = take (procLength ?c) (replies tp evs)" if r: "promise ?c' = Resolved rs" for rs
  proof -
    have "resolvedByHandler ?c" using s by (simp add: resolvedByHandler_def)
    then have "resolvedByHandler ?c'" by (rule resolvedByHandler_foldl)
    then have nl: "\<not> listening ?c'" and rs: "responses ?c' = rs"
      using r by (simp_all add: resolvedByHandler_def)
    have "procLength ?c \<noteq> 0"
    proof
      assume "procLength ?c = 0"
      then have "listening ?c'" using overfull_foldl [of ?c k evs] s by simp
      with nl show False by simp
    qed
    with b rs show ?thesis by simp
  qed
  have d: "\<forall>(p :: 'a ProcessPacket) c. responses (handler p c) =
           (if isReply p = Some True \<and> topic p = call_topic c then responses c @ [p]
            else responses c)"
    by (simp add: handler_def Let_def)
  have b': "responses (calls (run env fails m evs st1) ! k) =
           (if procLength ?c = 0 then replies tp evs else take (procLength ?c) (replies tp evs))"
    using b by (simp only: run)
  have c': "\<forall>rs. promise (calls (run env fails m evs st1) ! k) = Resolved rs \<longrightarrow>
           rs = take (procLength ?c) (replies tp evs)"
    using c by (simp only: run) blast
  show ?thesis using a b' c' d by (intro conjI) assumption+
qed

text \<open>
  C6 with siblings 2 and 3: a request packet, a reply on another topic and a third
  reply after the resolution are not in the result.
\<close>

theorem replies_counted_iff_matching_witness:
  "awaitAllProcMessagesReplies (worker ''1'') noFailure
      (Inr [described 2 ''online'', described 3 ''online'']) ''{}'' ''metrics-get'' 1000 idle =
      (Inr 0, awaiting23) \<and>
   responses (calls (run (worker ''1'') noFailure ''m''
      [Message (request 1), Message (answer 2 ''a'' 1),
       Message ((answer 3 ''b'' 1)\<lparr>topic := ''other''\<rparr>), Message (answer 3 ''c'' 1),
       Message (answer 2 ''d'' 1)] awaiting23) ! 0) =
     [answer 2 ''a'' 1, answer 3 ''c'' 1] \<and>
   promise (calls (run (worker ''1'') noFailure ''m''
      [Message (request 1), Message (answer 2 ''a'' 1),
       Message ((answer 3 ''b'' 1)\<lparr>topic := ''other''\<rparr>), Message (answer 3 ''c'' 1),
       Message (answer 2 ''d'' 1)] awaiting23) ! 0) =
     Resolved [answer 2 ''a'' 1, answer 3 ''c'' 1]"
proof -
  have h: "awaitAllProcMessagesReplies (worker ''1'') noFailure
      (Inr [described 2 ''online'', described 3 ''online'']) ''{}'' ''metrics-get'' 1000 idle =
      (Inr 0, awaiting23)" by code_simp
  have n: "procLength (calls awaiting23 ! 0) = 2" by code_simp
  have r: "replies ''metrics-get''
      [Message (request 1), Message (answer 2 ''a'' 1),
       Message ((answer 3 ''b'' 1)\<lparr>topic := ''other''\<rparr>), Message (answer 3 ''c'' 1),
       Message (answer 2 ''d'' 1)] = [answer 2 ''a'' 1, answer 3 ''c'' 1, answer 2 ''d'' 1]"
    by code_simp
  note t = replies_counted_iff_matching [OF h, of "''m''"
      "[Message (request 1), Message (answer 2 ''a'' 1),
       Message ((answer 3 ''b'' 1)\<lparr>topic := ''other''\<rparr>), Message (answer 3 ''c'' 1),
       Message (answer 2 ''d'' 1)]"]
  have "responses (calls (run (worker ''1'') noFailure ''m''
      [Message (request 1), Message (answer 2 ''a'' 1),
       Message ((answer 3 ''b'' 1)\<lparr>topic := ''other''\<rparr>), Message (answer 3 ''c'' 1),
       Message (answer 2 ''d'' 1)] awaiting23) ! 0) =
     take 2 [answer 2 ''a'' 1, answer 3 ''c'' 1, answer 2 ''d'' 1]"
    using t [THEN conjunct2, THEN conjunct1] unfolding n r by simp
  then have "responses (calls (run (worker ''1'') noFailure ''m''
      [Message (request 1), Message (answer 2 ''a'' 1),
       Message ((answer 3 ''b'' 1)\<lparr>topic := ''other''\<rparr>), Message (answer 3 ''c'' 1),
       Message (answer 2 ''d'' 1)] awaiting23) ! 0) = [answer 2 ''a'' 1, answer 3 ''c'' 1]"
    by simp
  moreover have "promise (calls (run (worker ''1'') noFailure ''m''
      [Message (request 1), Message (answer 2 ''a'' 1),
       Message ((answer 3 ''b'' 1)\<lparr>topic := ''other''\<rparr>), Message (answer 3 ''c'' 1),
       Message (answer 2 ''d'' 1)] awaiting23) ! 0) =
     Resolved [answer 2 ''a'' 1, answer 3 ''c'' 1]"
    by code_simp
  ultimately show ?thesis using h by blast
qed

text \<open>
  C7, refuted: without \<open>pm_id\<close> in the environment \<open>sendProcReply\<close> throws
  \<open>PM2 process id not found\<close> before it looks at \<open>replyTo\<close>, whether \<open>replyTo\<close> is
  absent or present; nothing is sent.
\<close>

theorem identity_checked_before_reply_target:
  "getCurrentProcId unidentified = Inl (Error ''PM2 process id not found'') \<and>
   replyTo ((request 1)\<lparr>replyTo := None\<rparr>) = None \<and>
   sendProcReply unidentified noFailure ((request 1)\<lparr>replyTo := None\<rparr>) ''a'' [] =
     (Inl (Error ''PM2 process id not found''), []) \<and>
   fst (sendProcReply unidentified noFailure ((request 1)\<lparr>replyTo := None\<rparr>) ''a'' []) \<noteq>
     Inl (Error ''ReplyTo is undefined'') \<and>
   replyTo (request 1) = Some (Num 1) \<and>
   sendProcReply unidentified noFailure (request 1) ''a'' [] =
     (Inl (Error ''PM2 process id not found''), [])"
  by code_simp

text \<open>
  C7 as amended: when the process id of the responder is available, a request without
  \<open>replyTo\<close> makes \<open>sendProcReply\<close> throw \<open>ReplyTo is undefined\<close> with the channel
  untouched, and a request with \<open>replyTo\<close> adds exactly one send, to that process id.
\<close>

theorem reply_needs_target:
  assumes "getCurrentProcId env = Inr cur"
  shows "sendProcReply env fails (originalPacket\<lparr>replyTo := None\<rparr>) d ch =
           (Inl (Error ''ReplyTo is undefined''), ch) \<and>
         (\<exists>returnPacket.
            sendProcReply env fails (originalPacket\<lparr>replyTo := Some r\<rparr>) d ch =
              (Inr (), ch @ [(r, returnPacket, fails r)]))"
  using assms by (simp add: sendProcReply_def sendDataToProcessId_def)

text \<open>
  The amended C7 for worker 2 and the request of worker 1, without and with
  \<open>replyTo\<close>.
\<close>

theorem reply_needs_target_witness:
  "getCurrentProcId (worker ''2'') = Inr (Num 2) \<and>
   sendProcReply (worker ''2'') noFailure ((request 1)\<lparr>replyTo := None\<rparr>) ''a''
       [(Num 9, request 2, False)] =
     (Inl (Error ''ReplyTo is undefined''), [(Num 9, request 2, False)]) \<and>
   (\<exists>returnPacket.
      sendProcReply (worker ''2'') noFailure ((request 1)\<lparr>replyTo := Some (Num 1)\<rparr>) ''a''
          [(Num 9, request 2, False)] =
        (Inr (), [(Num 9, request 2, False)] @ [(Num 1, returnPacket, noFailure (Num 1))]))"
proof -
  have h: "getCurrentProcId (worker ''2'') = Inr (Num 2)" by code_simp
  from reply_needs_target [OF h, of noFailure "request 1" "''a''" "[(Num 9, request 2, False)]"
      "Num 1"] h
  show ?thesis by blast
qed

text \<open>
  C8: outside cluster mode \<open>getAggregateMetrics\<close> returns the local registry and
  leaves the process, its channel included, as it was.
\<close>

theorem single_process_returns_local_registry:
  assumes "\<not> isClusterMode env"
  shows "getAggregateMetrics env fails listed e register t st = (Local register, st) \<and>
         queryOutcome aggregate st (Local register) = Fulfilled register"
  using assms by (simp add: getAggregateMetrics_def queryOutcome_def)

text \<open>
  C8 for a process in fork mode.
\<close>

theorem single_process_returns_local_registry_witness:
  "\<not> isClusterMode standalone \<and>
   getAggregateMetrics standalone noFailure (Inr [described 0 ''online'']) ''{}'' ''reg'' 10000 idle =
     (Local ''reg'', idle) \<and>
   queryOutcome concat idle (Local ''reg'') = Fulfilled ''reg''"
proof -
  have h: "\<not> isClusterMode standalone" by code_simp
  from single_process_returns_local_registry [OF h, of noFailure "Inr [described 0 ''online'']"
      "''{}''" "''reg''" 10000 idle concat] h
  show ?thesis by blast
qed

text \<open>
  C9: when a process of the filtered list has a falsy \<open>pm_id\<close> (undefined, 0 or NaN),
  \<open>broadcastToAll\<close> still returns the length of the whole list but sends only to the
  truthy ids, so fewer sends than the returned count are made; an invocation started
  with that count is never resolved by a trace that holds at most one accepted reply
  per send.
\<close>

theorem falsy_pm_id_counted_but_not_sent:
  assumes "getProcList env listed = Inr procList"
    and "proc \<in> set procList" and "\<not> truthy (pm_id proc)"
  shows "broadcastToAll env fails listed packet ch =
           (Inr (length procList), ch @ map (\<lambda>n. (n, packet, fails n)) (sendTargets procList)) \<and>
         length (sendTargets procList) = length (filter (\<lambda>p. truthy (pm_id p)) procList) \<and>
         length (sendTargets procList) < length procList \<and>
         (\<forall>k st1.
            awaitAllProcMessagesReplies env fails listed e tp t st = (Inr k, st1) \<longrightarrow>
            procLength (calls st1 ! k) = length procList \<and>
            (\<forall>evs rs. length (replies tp evs) \<le> length (sendTargets procList) \<longrightarrow>
               promise (calls (run env fails m evs st1) ! k) \<noteq> Resolved rs))"
proof -
  have a: "broadcastToAll env fails listed packet ch =
           (Inr (length procList), ch @ map (\<lambda>n. (n, packet, fails n)) (sendTargets procList))"
    using assms(1) by (simp add: broadcastToAll_def foldl_sendIfPmId)
  have b: "length (sendTargets procList) < length procList"
    using assms(2,3) by (rule sendTargets_fewer)
  have n: "procLength (calls st1 ! k) = length procList"
    if start: "awaitAllProcMessagesReplies env fails listed e tp t st = (Inr k, st1)"
    for k st1
    using started_call [OF start] assms(1) by (auto simp: getProcList_def)
  have c: "promise (calls (run env fails m evs st1) ! k) \<noteq> Resolved rs"
    if start: "awaitAllProcMessagesReplies env fails listed e tp t st = (Inr k, st1)"
      and few: "length (replies tp evs) \<le> length (sendTargets procList)"
    for k st1 evs rs
  proof -
    note s = started_call [OF start]
    note n = n [OF start]
    have l: "listening (calls st1 ! k)" using s by simp
    have r0: "responses (calls st1 ! k) = []" using s by blast
    have "0 < length procList" using b by arith
    then have lt: "length (responses (calls st1 ! k)) < procLength (calls st1 ! k)"
      unfolding r0 n by simp
    have "listening (foldl (callStep k) (calls st1 ! k) evs) =
          (length (replies tp evs) < length procList)"
      using collecting_foldl [OF l lt, of k evs] s n by simp
    then have "listening (foldl (callStep k) (calls st1 ! k) evs)"
      using few b by simp
    moreover have "resolvedByHandler (calls st1 ! k)" using s by (simp add: resolvedByHandler_def)
    ultimately have "promise (foldl (callStep k) (calls st1 ! k) evs) \<noteq> Resolved rs"
      by (intro never_resolved_while_listening)
    then show ?thesis using s by (simp add: nth_calls_run)
  qed
  have d: "\<forall>k st1.
            awaitAllProcMessagesReplies env fails listed e tp t st = (Inr k, st1) \<longrightarrow>
            procLength (calls st1 ! k) = length procList \<and>
            (\<forall>evs rs. length (replies tp evs) \<le> length (sendTargets procList) \<longrightarrow>
               promise (calls (run env fails m evs st1) ! k) \<noteq> Resolved rs)"
    using n c by blast
  show ?thesis using a length_sendTargets [of procList] b d by (intro conjI) assumption+
qed

text \<open>
  C9 for worker 1 among the online workers 0, 1 and 2: the count is 3, the sends go to
  1 and 2, and their two replies do not resolve the request.
\<close>

theorem falsy_pm_id_counted_but_not_sent_witness:
  "getProcList (worker ''1'')
     (Inr [described 0 ''online'', described 1 ''online'', described 2 ''online'']) =
     Inr [described 0 ''online'', described 1 ''online'', described 2 ''online''] \<and>
   described 0 ''online'' \<in> set [described 0 ''online'', described 1 ''online'', described 2 ''online''] \<and>
   \<not> truthy (pm_id (described 0 ''online'')) \<and>
   awaitAllProcMessagesReplies (worker ''1'') noFailure
     (Inr [described 0 ''online'', described 1 ''online'', described 2 ''online''])
     ''{}'' ''metrics-get'' 1000 idle = (Inr 0, skipped0) \<and>
   length (replies ''metrics-get'' [Message (answer 1 ''a'' 1), Message (answer 2 ''b'' 1)]) \<le>
     length (sendTargets [described 0 ''online'', described 1 ''online'', described 2 ''online'']) \<and>
   length (sendTargets [described 0 ''online'', described 1 ''online'', described 2 ''online'']) <
     length [described 0 ''online'', described 1 ''online'', described 2 ''online''] \<and>
   procLength (calls skipped0 ! 0) = 3 \<and>
   map fst (sent skipped0) = [Num 1, Num 2] \<and>
   promise (calls (run (worker ''1'') noFailure ''m''
      [Message (answer 1 ''a'' 1), Message (answer 2 ''b'' 1)] skipped0) ! 0) \<noteq>
     Resolved [answer 1 ''a'' 1, answer 2 ''b'' 1]"
proof -
  let ?l = "[described 0 ''online'', described 1 ''online'', described 2 ''online'']"
  have h1: "getProcList (worker ''1'') (Inr ?l) = Inr ?l" by code_simp
  have h2: "described 0 ''online'' \<in> set ?l" by simp
  have h3: "\<not> truthy (pm_id (described 0 ''online''))" by code_simp
  have h4: "awaitAllProcMessagesReplies (worker ''1'') noFailure (Inr ?l)
     ''{}'' ''metrics-get'' 1000 idle = (Inr 0, skipped0)" by code_simp
  have h5: "length (replies ''metrics-get'' [Message (answer 1 ''a'' 1), Message (answer 2 ''b'' 1)]) \<le>
     length (sendTargets ?l)" by code_simp
  have h6: "procLength (calls skipped0 ! 0) = 3" by code_simp
  have h7: "map fst (sent skipped0) = [Num 1, Num 2]" by code_simp
  note t = falsy_pm_id_counted_but_not_sent [OF h1 h2 h3, of noFailure "request 1" "[]"
      "''{}''" "''metrics-get''" 1000 idle "''m''"]
  from t have a: "length (sendTargets ?l) < length ?l" by blast
  from t h4 h5 have b: "promise (calls (run (worker ''1'') noFailure ''m''
      [Message (answer 1 ''a'' 1), Message (answer 2 ''b'' 1)] skipped0) ! 0) \<noteq>
     Resolved [answer 1 ''a'' 1, answer 2 ''b'' 1]" by blast
  show ?thesis using h1 h2 h3 h4 h5 a h6 h7 b by (intro conjI) assumption+
qed

text \<open>
  C10, evaluated for the worker with \<open>pm_id\<close> 0 among the online workers 0 and 1:
  it is in the filtered list and counted (the expected count is 2), but the guard
  \<open>if (proc.pm_id)\<close> skips the id 0, so the request is sent to worker 1 only and not
  to its own process id; after the reply of worker 1 the request is still pending, and
  the timer rejects it.
\<close>

theorem request_not_sent_to_pm_id_zero:
  "isClusterMode (worker ''0'') \<and>
   getCurrentProcId (worker ''0'') = Inr (Num 0) \<and>
   awaitAllProcMessagesReplies (worker ''0'') noFailure
     (Inr [described 0 ''online'', described 1 ''online'']) ''{}'' ''metrics-get'' 1000 idle =
     (Inr 0, zeroth) \<and>
   procLength (calls zeroth ! 0) = 2 \<and>
   sent zeroth = [(Num 1, request 0, False)] \<and>
   Num 0 \<notin> set (map fst (sent zeroth)) \<and>
   promise (calls (run (worker ''0'') noFailure ''m'' [Message (answer 1 ''b'' 0)] zeroth) ! 0) =
     Pending \<and>
   promise (calls (run (worker ''0'') noFailure ''m''
     [Message (answer 1 ''b'' 0), TimeoutFires 0] zeroth) ! 0) = Rejected (Text ''timeout'')"
  by code_simp

text \<open>
  Where the \<open>pm_id\<close> of the broadcasting process is truthy, the fan-out does reach
  it: in cluster mode, a process listed under its own name as online is in the
  filtered list and so in the expected count, the request on \<open>metrics-get\<close> is sent
  to its own process id, its responder answers that request with a reply sent to its
  own process id, and the handler of the invocation accepts that reply.
\<close>

theorem originator_answers_itself:
  fixes e m :: 'a
  assumes "isClusterMode env"
    and "getCurrentProcId env = Inr cur"
    and "awaitAllProcMessagesReplies env fails (Inr list) e ''metrics-get'' t st = (Inr k, st1)"
    and "self \<in> set list" and "sameNameOnline env self"
    and "pm_id self = Some cur" and "truthy (Some cur)"
  shows "(let req = \<lparr>topic = ''metrics-get'', id_pkt = cur, data = e, isReply = Some False,
                     replyTo = Some cur, originalProcId = cur\<rparr>;
              rep = req\<lparr>data := m, isReply := Some True\<rparr>
          in self \<in> set (filter (sameNameOnline env) list) \<and>
             procLength (calls st1 ! k) = length (filter (sameNameOnline env) list) \<and>
             (cur, req, fails cur) \<in> set (sent st1) \<and>
             sent (run env fails m [Message req] st1) = sent st1 @ [(cur, rep, fails cur)] \<and>
             responses (calls (run env fails m [Message req, Message rep] st1) ! k) = [rep])"
proof -
  define req where "req = \<lparr>topic = ''metrics-get'', id_pkt = cur, data = e, isReply = Some False,
                     replyTo = Some cur, originalProcId = cur\<rparr>"
  define rep where "rep = req\<lparr>data := m, isReply := Some True\<rparr>"
  note s = started_call [OF assms(3)]
  from awaitAll_started [OF assms(3)] assms(2)
  have sent1: "sent st1 = sent st @ map (\<lambda>n. (n, req, fails n))
                 (sendTargets (filter (sameNameOnline env) list))"
    by (auto simp: req_def)
  have a: "self \<in> set (filter (sameNameOnline env) list)" using assms(4,5) by simp
  have b: "procLength (calls st1 ! k) = length (filter (sameNameOnline env) list)"
    using s by auto
  have "cur \<in> set (sendTargets (filter (sameNameOnline env) list))"
    using a assms(6,7) by (rule sendTargets_member)
  then have c: "(cur, req, fails cur) \<in> set (sent st1)" by (auto simp: sent1)
  have d: "sent (run env fails m [Message req] st1) = sent st1 @ [(cur, rep, fails cur)]"
    using assms(1,2)
    by (simp add: run_def emitMessage_def handleProcessMessage_def sendProcReply_def
                  sendDataToProcessId_def req_def rep_def Let_def)
  have "responses (foldl (callStep k) (calls st1 ! k) [Message req, Message rep]) = [rep]"
    using s by (simp add: callStep_def handler_def req_def rep_def Let_def)
  then have f: "responses (calls (run env fails m [Message req, Message rep] st1) ! k) = [rep]"
    using s by (simp add: nth_calls_run)
  from a b c d f show ?thesis unfolding Let_def req_def [symmetric] rep_def [symmetric]
    by (intro conjI)
qed

text \<open>
  The same for worker 1 among the online workers 1 and 2.
\<close>

theorem originator_answers_itself_witness:
  "isClusterMode (worker ''1'') \<and>
   getCurrentProcId (worker ''1'') = Inr (Num 1) \<and>
   awaitAllProcMessagesReplies (worker ''1'') noFailure
     (Inr [described 1 ''online'', described 2 ''online'']) ''{}'' ''metrics-get'' 1000 idle =
     (Inr 0, withSelf) \<and>
   described 1 ''online'' \<in> set [described 1 ''online'', described 2 ''online''] \<and>
   sameNameOnline (worker ''1'') (described 1 ''online'') \<and>
   pm_id (described 1 ''online'') = Some (Num 1) \<and> truthy (Some (Num 1)) \<and>
   (Num 1, request 1, noFailure (Num 1)) \<in> set (sent withSelf) \<and>
   sent (run (worker ''1'') noFailure ''m'' [Message (request 1)] withSelf) =
     sent withSelf @ [(Num 1, answer 1 ''m'' 1, noFailure (Num 1))] \<and>
   responses (calls (run (worker ''1'') noFailure ''m''
     [Message (request 1), Message (answer 1 ''m'' 1)] withSelf) ! 0) = [answer 1 ''m'' 1]"
proof -
  have h1: "isClusterMode (worker ''1'')" by code_simp
  have h2: "getCurrentProcId (worker ''1'') = Inr (Num 1)" by code_simp
  have h3: "awaitAllProcMessagesReplies (worker ''1'') noFailure
     (Inr [described 1 ''online'', described 2 ''online'']) ''{}'' ''metrics-get'' 1000 idle =
     (Inr 0, withSelf)" by code_simp
  have h4: "described 1 ''online'' \<in> set [described 1 ''online'', described 2 ''online'']"
    by simp
  have h5: "sameNameOnline (worker ''1'') (described 1 ''online'')" by code_simp
  have h6: "pm_id (described 1 ''online'') = Some (Num 1)" by code_simp
  have h7: "truthy (Some (Num 1))" by code_simp
  have req: "\<lparr>topic = ''metrics-get'', id_pkt = Num 1, data = ''{}'', isReply = Some False,
              replyTo = Some (Num 1), originalProcId = Num 1\<rparr> = request 1"
    by (simp add: request_def)
  have rep: "(request 1)\<lparr>data := ''m'', isReply := Some True\<rparr> = answer 1 ''m'' 1"
    by (simp add: request_def answer_def)
  note t = originator_answers_itself [OF h1 h2 h3 h4 h5 h6 h7, of "''m''",
      unfolded Let_def req rep]
  from t have a: "(Num 1, request 1, noFailure (Num 1)) \<in> set (sent withSelf)" by blast
  from t have b: "sent (run (worker ''1'') noFailure ''m'' [Message (request 1)] withSelf) =
     sent withSelf @ [(Num 1, answer 1 ''m'' 1, noFailure (Num 1))]" by blast
  from t have c: "responses (calls (run (worker ''1'') noFailure ''m''
     [Message (request 1), Message (answer 1 ''m'' 1)] withSelf) ! 0) = [answer 1 ''m'' 1]"
    by blast
  show ?thesis using h1 h2 h3 h4 h5 h6 h7 a b c by (intro conjI) assumption+
qed

end
